theory Spec2Isabelle
  imports Main
begin

section \<open>The baps3d network server (netsrv/server.go) and its requests (list/requests.go)\<close>

subsection \<open>Values exchanged with code outside the two files\<close>

text \<open>
  The server talks to the sockets of package \<open>net\<close>, to the Controller handles of package
  \<open>comm\<close> and to the tokeniser and packer of package \<open>bifrost\<close>. None of them is part of
  the two files; their values are identified here by opaque numbers or by their text.
\<close>

type_synonym error = string
  \<comment> \<open>a Go \<open>error\<close>, by the text of \<open>err.Error()\<close>\<close>
type_synonym conn = nat
  \<comment> \<open>a \<open>net.Conn\<close>\<close>
type_synonym handle = nat
  \<comment> \<open>a \<open>*comm.Client\<close>\<close>
type_synonym parser = nat
  \<comment> \<open>a \<open>comm.BifrostParser\<close>\<close>
type_synonym adapter = nat
  \<comment> \<open>the first result of \<open>comm.NewBifrost\<close>, whose \<open>Run\<close> is the adapter loop\<close>
type_synonym bclient = nat
  \<comment> \<open>a \<open>*comm.BifrostClient\<close>, the second result of \<open>comm.NewBifrost\<close>\<close>
type_synonym message = "string list"
  \<comment> \<open>a \<open>bifrost.Message\<close>\<close>
type_synonym response = string
  \<comment> \<open>a value arriving on \<open>rootClient.Rx\<close>\<close>

text \<open>
  \<open>type client struct\<close>. The logger \<open>l\<close> is the server's logger (\<open>l: s.l\<close> in
  \<open>newClient\<close>) and \<open>buf\<close> is never read or written, so neither is a field here.
\<close>

record client =
  conn :: conn
  conClient :: handle
  conBifrost :: bclient

text \<open>
  The goroutines the server starts with \<open>go\<close>, each at the place where it can be while it
  lives: the acceptor of \<open>Run\<close>, and for a client the three of \<open>newClient\<close>. The first of
  these is either inside \<open>cli.RunTx()\<close> or at the \<open>select\<close> that follows it.
\<close>

datatype goroutine =
    Acceptor
  | TxLoop client
  | TxSelect client
  | RxLoop client
  | BifrostRun adapter

text \<open>What the server does to the world outside its own fields, in the order it does it.\<close>

datatype action =
    Println string
  | ConnClose conn
  | ConnWrite conn string
  | Send bclient message
  | CloseDone
  | LnClose
  | Shutdown handle
  | WgWait

text \<open>
  \<open>type Server struct\<close>. The map \<open>clients\<close> is a list without repetitions; the closed
  state of the channel \<open>done\<close> is \<open>done_ch\<close>; the counter of the WaitGroup is \<open>wg\<close>. The
  logger, the sockets and the Go runtime are outside the struct: \<open>trace\<close> holds the
  actions on them and \<open>goroutines\<close> the goroutines started and not yet finished. The
  channels \<open>accConn\<close>, \<open>accErr\<close> and \<open>clientHangUp\<close> are unbuffered, so they hold no
  value between a send and its receive; \<open>clientErr\<close> is never used.
\<close>

record server =
  host :: string
  rootClient :: handle
  rootBifrost :: parser
  clients :: "client list"
  done_ch :: bool
  wg :: int
  trace :: "action list"
  goroutines :: "goroutine list"

text \<open>
  The results of the calls that leave the two files: \<open>c.RemoteAddr().String()\<close>,
  \<open>c.Close()\<close>, \<open>s.rootClient.Copy()\<close> at the moment connection \<open>c\<close> is registered,
  \<open>comm.NewBifrost\<close>, \<open>ln.Close()\<close>, \<open>bifrost.LineToMessage\<close> and \<open>m.Pack()\<close>.
\<close>

record env =
  remoteAddr :: "conn \<Rightarrow> string"
  connClose :: "conn \<Rightarrow> error option"
  copy :: "conn \<Rightarrow> error + handle"
  newBifrost :: "handle \<Rightarrow> parser \<Rightarrow> adapter \<times> bclient"
  lnClose :: "error option"
  lineToMessage :: "string list \<Rightarrow> error + message"
  pack :: "message \<Rightarrow> error + string"

datatype status = Returned | Blocked

subsection \<open>The server's own functions\<close>

definition emit :: "action \<Rightarrow> server \<Rightarrow> server" where
  "emit a s = s\<lparr>trace := trace s @ [a]\<rparr>"

definition println :: "string \<Rightarrow> server \<Rightarrow> server" where
  "println line s = emit (Println line) s"

definition wgAdd :: "int \<Rightarrow> server \<Rightarrow> server" where
  "wgAdd n s = s\<lparr>wg := wg s + n\<rparr>"

definition go :: "goroutine \<Rightarrow> server \<Rightarrow> server" where
  "go g s = s\<lparr>goroutines := goroutines s @ [g]\<rparr>"

definition New :: "string \<Rightarrow> handle \<Rightarrow> parser \<Rightarrow> server" where
  "New h rc rb =
     \<lparr>host = h, rootClient = rc, rootBifrost = rb, clients = [], done_ch = False,
      wg = 0, trace = [], goroutines = []\<rparr>"

definition shutdownController :: "server \<Rightarrow> server" where
  "shutdownController s = emit (Shutdown (rootClient s)) (println ''shutting down'' s)"

text \<open>
  \<open>newClient\<close>: the result is the new server and the returned error. When \<open>Copy\<close>
  fails the socket is closed and nothing else happens.
\<close>

definition newClient :: "env \<Rightarrow> conn \<Rightarrow> server \<Rightarrow> server \<times> error option" where
  "newClient e c s =
     (let s1 = println (''new connection: '' @ remoteAddr e c) s in
      case copy e c of
        Inl err \<Rightarrow> (emit (ConnClose c) s1, Some err)
      | Inr cc \<Rightarrow>
          (let (bf, bc) = newBifrost e cc (rootBifrost s1);
               cli = \<lparr>conn = c, conClient = cc, conBifrost = bc\<rparr>;
               s2 = s1\<lparr>clients := List.insert cli (clients s1)\<rparr>;
               s3 = wgAdd 3 s2;
               s4 = go (TxLoop cli) s3;
               s5 = go (RxLoop cli) s4;
               s6 = go (BifrostRun bf) s5
           in (s6, None)))"

definition hangUpClient :: "env \<Rightarrow> client \<Rightarrow> server \<Rightarrow> server" where
  "hangUpClient e c s =
     (let cname = remoteAddr e (conn c);
          s1 = println (''hanging up: '' @ cname) s;
          s2 = emit (ConnClose (conn c)) s1;
          s3 = (case connClose e (conn c) of
                  Some err \<Rightarrow> println (''couldn't gracefully close '' @ cname @ '': '' @ err) s2
                | None \<Rightarrow> s2)
      in s3\<lparr>clients := removeAll c (clients s3)\<rparr>)"

text \<open>
  \<open>hangUpAllClients\<close> ranges over the map while \<open>hangUpClient\<close> deletes the key it was
  given, so every client of the map is visited once. Go leaves the order open; the model
  takes the order of the list.
\<close>

definition hangUpAllClients :: "env \<Rightarrow> server \<Rightarrow> server" where
  "hangUpAllClients e s = fold (hangUpClient e) (clients s) s"

text \<open>The five cases of the \<open>select\<close> of \<open>mainLoop\<close>, as the values received.\<close>

datatype event =
    AccErr error
  | AccConn conn
  | ClientHangUp client
  | RootRx response
  | RootDone

text \<open>One turn of the loop: the new server, and whether the case returns from \<open>mainLoop\<close>.\<close>

fun mainLoop_case :: "env \<Rightarrow> event \<Rightarrow> server \<Rightarrow> server \<times> bool" where
  "mainLoop_case e (AccErr err) s = (println (''error accepting connections: '' @ err) s, True)"
| "mainLoop_case e (AccConn c) s =
     (let cname = remoteAddr e c in
      case newClient e c s of
        (s', Some err) \<Rightarrow>
          (println (''error registering connection '' @ cname @ '': '' @ err) s', False)
      | (s', None) \<Rightarrow> (s', False))"
| "mainLoop_case e (ClientHangUp c) s = (hangUpClient e c s, False)"
| "mainLoop_case e (RootRx r) s = (s, False)"
| "mainLoop_case e RootDone s = (println ''received controller shutdown'' s, True)"

text \<open>
  \<open>mainLoop\<close> on the events its \<open>select\<close> receives, in order. With no event left the loop
  is blocked in the \<open>select\<close>.
\<close>

fun mainLoop :: "env \<Rightarrow> event list \<Rightarrow> server \<Rightarrow> server \<times> status" where
  "mainLoop e [] s = (s, Blocked)"
| "mainLoop e (ev # evs) s =
     (case mainLoop_case e ev s of
        (s', True) \<Rightarrow> (s', Returned)
      | (s', False) \<Rightarrow> mainLoop e evs s')"

definition closeDone :: "server \<Rightarrow> server" where
  "closeDone s = emit CloseDone (s\<lparr>done_ch := True\<rparr>)"

definition closeListener :: "env \<Rightarrow> server \<Rightarrow> server" where
  "closeListener e s =
     (let s1 = emit LnClose s;
          s2 = (case lnClose e of
                  Some err \<Rightarrow> println (''error closing listener: '' @ err) s1
                | None \<Rightarrow> s1)
      in println ''closed listener'' s2)"

definition wgWait :: "server \<Rightarrow> server" where
  "wgWait s = emit WgWait s"

text \<open>
  \<open>Run\<close>, as the main goroutine executes it, given the result of \<open>net.Listen\<close> and the
  events of the main loop; \<open>listenFailed\<close> and \<open>startAccept\<close> are its lines 225 and
  229 to 234. The two deferred calls run last, \<open>shutdownController\<close> before
  \<open>wg.Wait\<close>. The status is \<open>Blocked\<close> when the main loop never returns; \<open>Returned\<close>
  says that \<open>wg.Wait()\<close> has been called, after which \<open>Run\<close> returns as soon as the
  counter is zero.
\<close>

definition listenFailed :: "error \<Rightarrow> server \<Rightarrow> server" where
  "listenFailed err s = println (''couldn't open server: '' @ err) s"

definition startAccept :: "server \<Rightarrow> server" where
  "startAccept s = go Acceptor (wgAdd 1 (println (''now listening on '' @ host s) s))"

definition Run :: "env \<Rightarrow> error option \<Rightarrow> event list \<Rightarrow> server \<Rightarrow> server \<times> status" where
  "Run e lres evs s =
     (case lres of
        Some err \<Rightarrow> (wgWait (shutdownController (listenFailed err s)), Returned)
      | None \<Rightarrow>
          (case mainLoop e evs (startAccept s) of
             (s3, Blocked) \<Rightarrow> (s3, Blocked)
           | (s3, Returned) \<Rightarrow>
               (let s4 = closeDone s3;
                    s5 = hangUpAllClients e s4;
                    s6 = closeListener e s5
                in (wgWait (shutdownController s6), Returned))))"

subsection \<open>The loops of a client\<close>

definition outputError :: "error \<Rightarrow> action" where
  "outputError err = Println (''connection error: '' @ err)"

text \<open>
  \<open>RunRx\<close> on the messages that arrive on \<open>c.conBifrost.Rx\<close>, on whether the channel is
  closed after them, and on the results of the calls of \<open>c.conn.Write\<close> in order. The loop
  is blocked when the channel is empty and open, or when \<open>Write\<close> does not come back.
\<close>

fun RunRx :: "env \<Rightarrow> client \<Rightarrow> message list \<Rightarrow> bool \<Rightarrow> error option list
    \<Rightarrow> action list \<times> status" where
  "RunRx e c [] closed ws = ([], if closed then Returned else Blocked)"
| "RunRx e c (m # ms) closed ws =
     (case pack e m of
        Inl err \<Rightarrow>
          (let (as, st) = RunRx e c ms closed ws in (outputError err # as, st))
      | Inr mbytes \<Rightarrow>
          (case ws of
             [] \<Rightarrow> ([], Blocked)
           | Some err # ws' \<Rightarrow> ([outputError err], Returned)
           | None # ws' \<Rightarrow>
               (let (as, st) = RunRx e c ms closed ws' in (ConnWrite (conn c) mbytes # as, st))))"

text \<open>The two results of \<open>r.ReadLine()\<close>.\<close>

datatype read_result = ReadErr error | ReadLine "string list"

text \<open>
  \<open>RunTx\<close> on the results of the calls of \<open>r.ReadLine()\<close> and of \<open>c.conBifrost.Send\<close>, each
  in order. The loop is blocked when a call does not come back.
\<close>

fun RunTx :: "env \<Rightarrow> client \<Rightarrow> read_result list \<Rightarrow> bool list \<Rightarrow> action list \<times> status" where
  "RunTx e c [] sends = ([], Blocked)"
| "RunTx e c (ReadErr terr # rs) sends = ([outputError terr], Returned)"
| "RunTx e c (ReadLine line # rs) sends =
     (case lineToMessage e line of
        Inl merr \<Rightarrow> ([outputError merr], Returned)
      | Inr msg \<Rightarrow>
          (case sends of
             [] \<Rightarrow> ([], Blocked)
           | False # sends' \<Rightarrow> ([Println ''client died while sending message''], Returned)
           | True # sends' \<Rightarrow>
               (let (as, st) = RunTx e c rs sends' in (Send (conBifrost c) msg # as, st))))"

subsection \<open>The goroutines together\<close>

text \<open>
  Where the main goroutine is in \<open>Run\<close>: before \<open>net.Listen\<close>, in the \<open>select\<close> of
  \<open>mainLoop\<close>, before each of the statements that follow the loop, inside \<open>wg.Wait()\<close>,
  or back from \<open>Run\<close>. \<open>MainPanicked\<close> is the nil dereference of
  \<open>conn.RemoteAddr()\<close> on the zero value that a closed \<open>accConn\<close> delivers.
\<close>

datatype main_pc =
    MainStart
  | MainLoop
  | MainCloseDone
  | MainHangUpAll
  | MainLnClose
  | MainShutdown
  | MainWait
  | MainReturned
  | MainPanicked

text \<open>
  Where the acceptor is in \<open>acceptClients\<close>: not started, inside \<open>ln.Accept()\<close>, at the
  \<open>select\<close> that offers the error, at the \<open>select\<close> that offers the connection, or back.
\<close>

datatype acc_pc =
    AccNone
  | AccAccept
  | AccSendErr error
  | AccSendConn conn
  | AccReturned

record sys =
  srv :: server
  mpc :: main_pc
  apc :: acc_pc
  acc_closed :: bool

text \<open>
  What can happen next. A send on an unbuffered channel happens together with its receive,
  so \<open>AccSend\<close> and \<open>TxSend\<close> need the main goroutine in its \<open>select\<close>; a receive from
  \<open>done\<close> needs \<open>done\<close> closed. \<open>TxRun\<close> and \<open>RxRun\<close> are a whole run of the loop up to
  its return, on the results of its calls.
\<close>

datatype sched =
    Listen "error option"
  | Accept "error + conn"
  | AccSend
  | AccDone
  | TxRun client "read_result list" "bool list"
  | TxSend client
  | TxDone client
  | RxRun client "message list" "error option list"
  | BifrostExit adapter
  | RootRxRecv response
  | RootDoneRecv
  | ClosedErrRecv
  | ClosedConnRecv
  | Main

definition emits :: "action list \<Rightarrow> server \<Rightarrow> server" where
  "emits as s = s\<lparr>trace := trace s @ as\<rparr>"

definition wgDone :: "goroutine \<Rightarrow> server \<Rightarrow> server" where
  \<comment> \<open>goroutine \<open>g\<close> calls \<open>s.wg.Done()\<close> and ends\<close>
  "wgDone g s = s\<lparr>goroutines := remove1 g (goroutines s), wg := wg s - 1\<rparr>"

definition moveTo :: "goroutine \<Rightarrow> goroutine \<Rightarrow> server \<Rightarrow> server" where
  "moveTo g g' s = s\<lparr>goroutines := remove1 g (goroutines s) @ [g']\<rparr>"

definition recv :: "env \<Rightarrow> event \<Rightarrow> sys \<Rightarrow> sys" where
  \<comment> \<open>the main goroutine, in its \<open>select\<close>, receives \<open>ev\<close>\<close>
  "recv e ev st =
     (case mainLoop_case e ev (srv st) of
        (s', ret) \<Rightarrow> st\<lparr>srv := s', mpc := (if ret then MainCloseDone else MainLoop)\<rparr>)"

definition acceptorReturns :: "sys \<Rightarrow> sys" where
  \<comment> \<open>lines 281 to 283 of \<open>acceptClients\<close>, then \<open>s.wg.Done()\<close> of line 233\<close>
  "acceptorReturns st =
     st\<lparr>srv := wgDone Acceptor (srv st), apc := AccReturned, acc_closed := True\<rparr>"

fun step :: "env \<Rightarrow> sched \<Rightarrow> sys \<Rightarrow> sys option" where
  "step e (Listen lres) st =
     (if mpc st \<noteq> MainStart then None
      else case lres of
        Some err \<Rightarrow> Some (st\<lparr>srv := listenFailed err (srv st), mpc := MainShutdown\<rparr>)
      | None \<Rightarrow> Some (st\<lparr>srv := startAccept (srv st), mpc := MainLoop, apc := AccAccept\<rparr>))"
| "step e (Accept res) st =
     (if apc st \<noteq> AccAccept then None
      else case res of
        Inl err \<Rightarrow> Some (st\<lparr>apc := AccSendErr err\<rparr>)
      | Inr c \<Rightarrow> Some (st\<lparr>apc := AccSendConn c\<rparr>))"
| "step e AccSend st =
     (if mpc st \<noteq> MainLoop then None
      else case apc st of
        AccSendErr err \<Rightarrow> Some (acceptorReturns (recv e (AccErr err) st))
      | AccSendConn c \<Rightarrow> Some ((recv e (AccConn c) st)\<lparr>apc := AccAccept\<rparr>)
      | _ \<Rightarrow> None)"
| "step e AccDone st =
     (if \<not> done_ch (srv st) then None
      else case apc st of
        AccSendErr err \<Rightarrow> Some (acceptorReturns st)
      | AccSendConn c \<Rightarrow> Some (st\<lparr>srv := emit (ConnClose c) (srv st), apc := AccAccept\<rparr>)
      | _ \<Rightarrow> None)"
| "step e (TxRun cli rs sends) st =
     (if TxLoop cli \<notin> set (goroutines (srv st)) then None
      else case RunTx e cli rs sends of
        (as, Blocked) \<Rightarrow> None
      | (as, Returned) \<Rightarrow>
          Some (st\<lparr>srv := moveTo (TxLoop cli) (TxSelect cli) (emits as (srv st))\<rparr>))"
| "step e (TxSend cli) st =
     (if mpc st \<noteq> MainLoop \<or> TxSelect cli \<notin> set (goroutines (srv st)) then None
      else let st' = recv e (ClientHangUp cli) st
           in Some (st'\<lparr>srv := wgDone (TxSelect cli) (srv st')\<rparr>))"
| "step e (TxDone cli) st =
     (if \<not> done_ch (srv st) \<or> TxSelect cli \<notin> set (goroutines (srv st)) then None
      else Some (st\<lparr>srv := wgDone (TxSelect cli) (srv st)\<rparr>))"
| "step e (RxRun cli ms ws) st =
     (if RxLoop cli \<notin> set (goroutines (srv st)) then None
      else case RunRx e cli ms True ws of
        (as, Blocked) \<Rightarrow> None
      | (as, Returned) \<Rightarrow> Some (st\<lparr>srv := wgDone (RxLoop cli) (emits as (srv st))\<rparr>))"
| "step e (BifrostExit b) st =
     (if BifrostRun b \<notin> set (goroutines (srv st)) then None
      else Some (st\<lparr>srv := wgDone (BifrostRun b) (srv st)\<rparr>))"
| "step e (RootRxRecv r) st =
     (if mpc st \<noteq> MainLoop then None else Some (recv e (RootRx r) st))"
| "step e RootDoneRecv st =
     (if mpc st \<noteq> MainLoop then None else Some (recv e RootDone st))"
| "step e ClosedErrRecv st =
     (if mpc st \<noteq> MainLoop \<or> \<not> acc_closed st then None
      else Some (recv e (AccErr ''<nil>'') st))"
| "step e ClosedConnRecv st =
     (if mpc st \<noteq> MainLoop \<or> \<not> acc_closed st then None
      else Some (st\<lparr>mpc := MainPanicked\<rparr>))"
| "step e Main st =
     (case mpc st of
        MainCloseDone \<Rightarrow> Some (st\<lparr>srv := closeDone (srv st), mpc := MainHangUpAll\<rparr>)
      | MainHangUpAll \<Rightarrow> Some (st\<lparr>srv := hangUpAllClients e (srv st), mpc := MainLnClose\<rparr>)
      | MainLnClose \<Rightarrow> Some (st\<lparr>srv := closeListener e (srv st), mpc := MainShutdown\<rparr>)
      | MainShutdown \<Rightarrow>
          Some (st\<lparr>srv := wgWait (shutdownController (srv st)), mpc := MainWait\<rparr>)
      | MainWait \<Rightarrow> (if wg (srv st) = 0 then Some (st\<lparr>mpc := MainReturned\<rparr>) else None)
      | _ \<Rightarrow> None)"

fun exec :: "env \<Rightarrow> sched list \<Rightarrow> sys \<Rightarrow> sys option" where
  "exec e [] st = Some st"
| "exec e (x # xs) st = (case step e x st of None \<Rightarrow> None | Some st' \<Rightarrow> exec e xs st')"

definition start :: "server \<Rightarrow> sys" where
  "start s = \<lparr>srv = s, mpc = MainStart, apc = AccNone, acc_closed = False\<rparr>"

subsection \<open>The requests (list/requests.go)\<close>

type_synonym chan = nat
  \<comment> \<open>a channel of Responses\<close>
type_synonym autoMode = nat
  \<comment> \<open>the type \<open>AutoMode\<close>, declared elsewhere in package \<open>list\<close>\<close>

record requestOrigin =
  Message :: "message option"
  ReplyTx :: chan

text \<open>
  The four request structs of the file. The field \<open>Body\<close> of a \<open>Request\<close> has the type
  \<open>interface{}\<close>, which is open: \<open>OtherBody\<close> stands for any other Go value.
\<close>

datatype body =
    DumpRequest
  | SetSelectRequest (Index: int) (Hash: string)
  | NextRequest
  | SetAutoModeRequest (AutoMode: autoMode)
  | OtherBody string

record request =
  Origin :: requestOrigin
  Body :: body

subsection \<open>The Controller's handling of a selection request\<close>

text \<open>
  Modelled from the spec: the two Responses a selection request can cause. The Response
  type is declared in a file that is not among the sources; section 4.1 of the
  specification names a selection-changed Response and a rejection Response.
\<close>

datatype ctl_response = SelectionChanged int | SelectRejected

text \<open>
  Modelled from the spec: the state owned by the Controller of \<open>controller.go\<close>, which is
  not among the sources: the items of the list, the selection, and the \<open>Rx\<close> channels of
  the attached Client handles (sections 3 and 4.1).
\<close>

record 'i controller =
  items :: "'i list"
  selection :: int
  attached :: "chan list"

text \<open>
  Modelled from the spec: the item currently at an index, which exists when the index is
  in bounds (section 4.1, "validates \<open>Index\<close> in bounds").
\<close>

definition itemAt :: "'i list \<Rightarrow> int \<Rightarrow> 'i option" where
  "itemAt xs i = (if 0 \<le> i \<and> i < int (length xs) then Some (xs ! nat i) else None)"

text \<open>
  Modelled from the spec: the processing of \<open>SetSelect{Index, Hash}\<close> by the Controller of
  \<open>controller.go\<close>, which is not among the sources (section 4.1): it validates \<open>Index\<close> in
  bounds and \<open>Hash\<close> equal to the hash of the item at \<open>Index\<close>; on success it mutates the
  selection and broadcasts a selection-changed Response to every attached Client's \<open>Rx\<close>;
  on failure it sends a unicast rejection Response to the requester only and leaves the
  state unchanged. The hash of an item is an opaque fingerprint (section 9), here the
  parameter \<open>hash\<close>. The result is the new state and the Responses sent, each with the
  channel it is sent on.
\<close>

definition setSelect ::
    "('i \<Rightarrow> string) \<Rightarrow> 'i controller \<Rightarrow> requestOrigin \<Rightarrow> int \<Rightarrow> string
     \<Rightarrow> 'i controller \<times> (chan \<times> ctl_response) list" where
  "setSelect hash ctl origin idx h =
     (case itemAt (items ctl) idx of
        None \<Rightarrow> (ctl, [(ReplyTx origin, SelectRejected)])
      | Some it \<Rightarrow>
          (if hash it = h
           then (ctl\<lparr>selection := idx\<rparr>, map (\<lambda>rx. (rx, SelectionChanged idx)) (attached ctl))
           else (ctl, [(ReplyTx origin, SelectRejected)])))"

subsection \<open>Names for what the theorems say\<close>

text \<open>What \<open>hangUpClient\<close> adds to the trace for client \<open>c\<close>.\<close>

definition hangUpLog :: "env \<Rightarrow> client \<Rightarrow> action list" where
  "hangUpLog e c =
     [Println (''hanging up: '' @ remoteAddr e (conn c)), ConnClose (conn c)] @
     (case connClose e (conn c) of
        Some err \<Rightarrow>
          [Println (''couldn't gracefully close '' @ remoteAddr e (conn c) @ '': '' @ err)]
      | None \<Rightarrow> [])"

text \<open>The main goroutine is past \<open>close(s.done)\<close>.\<close>

definition left_loop :: "main_pc \<Rightarrow> bool" where
  "left_loop pc \<longleftrightarrow> pc \<in> {MainHangUpAll, MainLnClose, MainShutdown, MainWait, MainReturned}"

definition done_inv :: "sys \<Rightarrow> bool" where
  "done_inv st \<longleftrightarrow> (done_ch (srv st) \<longrightarrow> left_loop (mpc st))"

text \<open>
  The main goroutine is out of its \<open>select\<close> once the acceptor has closed \<open>accErr\<close> and
  \<open>accConn\<close>, and it has not panicked.
\<close>

definition closed_inv :: "sys \<Rightarrow> bool" where
  "closed_inv st \<longleftrightarrow>
     done_inv st \<and> mpc st \<noteq> MainPanicked \<and>
     (acc_closed st \<longrightarrow> mpc st \<noteq> MainStart \<and> mpc st \<noteq> MainLoop)"

text \<open>
  The root handle is shut down before the main goroutine waits; and after a failed
  \<open>net.Listen\<close> the main goroutine is in the deferred calls with \<open>done\<close> open.
\<close>

definition shutdown_inv :: "handle \<Rightarrow> sys \<Rightarrow> bool" where
  "shutdown_inv rc st \<longleftrightarrow>
     rootClient (srv st) = rc \<and>
     (mpc st \<in> {MainWait, MainReturned} \<longrightarrow> Shutdown rc \<in> set (trace (srv st)))"

definition bind_failed_inv :: "sys \<Rightarrow> bool" where
  "bind_failed_inv st \<longleftrightarrow>
     \<not> done_ch (srv st) \<and> mpc st \<in> {MainShutdown, MainWait, MainReturned}"

subsection \<open>A concrete server\<close>

text \<open>
  A server on \<open>localhost:1350\<close> whose Controller accepts a copy for connection 1 and
  refuses it for every other connection, with sockets that close without error.
\<close>

definition env0 :: env where
  "env0 = \<lparr>remoteAddr = (\<lambda>c. if c = 1 then ''10.0.0.1:4000'' else ''10.0.0.2:4000''),
           connClose = (\<lambda>c. None),
           copy = (\<lambda>c. if c = 1 then Inr 11 else Inl ''controller shut down''),
           newBifrost = (\<lambda>h p. (h + 10, h + 20)),
           lnClose = None,
           lineToMessage = (\<lambda>l. if l = [] then Inl ''empty line'' else Inr l),
           pack = (\<lambda>m. if m = [] then Inl ''empty message'' else Inr (concat m))\<rparr>"

definition srv0 :: server where
  "srv0 = New ''localhost:1350'' 0 0"

definition cli1 :: client where
  "cli1 = \<lparr>conn = 1, conClient = 11, conBifrost = 31\<rparr>"

text \<open>
  Three of its states: listening with no client; serving client 1; and after a Controller
  shutdown, just past \<open>close(s.done)\<close>, with the acceptor still in \<open>ln.Accept()\<close>.
\<close>

definition st_listening :: sys where
  "st_listening = \<lparr>srv = startAccept srv0, mpc = MainLoop, apc = AccAccept, acc_closed = False\<rparr>"

definition st_serving :: sys where
  "st_serving =
     \<lparr>srv = fst (newClient env0 1 (startAccept srv0)), mpc = MainLoop, apc = AccAccept,
      acc_closed = False\<rparr>"

definition st_closing :: sys where
  "st_closing =
     \<lparr>srv = closeDone (println ''received controller shutdown'' (startAccept srv0)),
      mpc = MainHangUpAll, apc = AccAccept, acc_closed = False\<rparr>"

text \<open>
  Client 1 has sent one good line and then an empty one, and its goroutine is at the
  \<open>select\<close> after \<open>RunTx\<close>; the same with \<open>done\<close> closed by a Controller shutdown.
\<close>

definition st_hangup :: sys where
  "st_hangup =
     \<lparr>srv = moveTo (TxLoop cli1) (TxSelect cli1)
              (emits [Send 31 [''dump''], Println ''connection error: empty line''] (srv st_serving)),
      mpc = MainLoop, apc = AccAccept, acc_closed = False\<rparr>"

definition st_hangup_done :: sys where
  "st_hangup_done =
     \<lparr>srv = closeDone (println ''received controller shutdown'' (srv st_hangup)),
      mpc = MainHangUpAll, apc = AccAccept, acc_closed = False\<rparr>"

text \<open>Serving client 1 when \<open>ln.Accept()\<close> has failed and the main loop has got the error.\<close>

definition st_acc_failed :: sys where
  "st_acc_failed =
     \<lparr>srv = wgDone Acceptor
              (println ''error accepting connections: accept tcp: too many open files''
                 (srv st_serving)),
      mpc = MainCloseDone, apc = AccReturned, acc_closed = True\<rparr>"

text \<open>A Controller with three items and two attached handles; the hash of an item.\<close>

definition ctl0 :: "string controller" where
  "ctl0 = \<lparr>items = [''intro'', ''news'', ''jingle''], selection = 0, attached = [7, 8]\<rparr>"

definition hash0 :: "string \<Rightarrow> string" where
  "hash0 x = ''#'' @ x"

section \<open>Properties\<close>

subsection \<open>What each function changes\<close>

lemma emit_sel [simp]:
  "trace (emit a s) = trace s @ [a]" "clients (emit a s) = clients s"
  "done_ch (emit a s) = done_ch s" "wg (emit a s) = wg s"
  "goroutines (emit a s) = goroutines s" "rootClient (emit a s) = rootClient s"
  "host (emit a s) = host s" "rootBifrost (emit a s) = rootBifrost s"
  by (simp_all add: emit_def)

lemma println_sel [simp]:
  "trace (println x s) = trace s @ [Println x]" "clients (println x s) = clients s"
  "done_ch (println x s) = done_ch s" "wg (println x s) = wg s"
  "goroutines (println x s) = goroutines s" "rootClient (println x s) = rootClient s"
  "host (println x s) = host s" "rootBifrost (println x s) = rootBifrost s"
  by (simp_all add: println_def)

lemma emits_sel [simp]:
  "trace (emits as s) = trace s @ as" "clients (emits as s) = clients s"
  "done_ch (emits as s) = done_ch s" "wg (emits as s) = wg s"
  "goroutines (emits as s) = goroutines s" "rootClient (emits as s) = rootClient s"
  by (simp_all add: emits_def)

lemma wgDone_sel [simp]:
  "trace (wgDone g s) = trace s" "clients (wgDone g s) = clients s"
  "done_ch (wgDone g s) = done_ch s" "wg (wgDone g s) = wg s - 1"
  "goroutines (wgDone g s) = remove1 g (goroutines s)" "rootClient (wgDone g s) = rootClient s"
  by (simp_all add: wgDone_def)

lemma moveTo_sel [simp]:
  "trace (moveTo g g' s) = trace s" "clients (moveTo g g' s) = clients s"
  "done_ch (moveTo g g' s) = done_ch s" "wg (moveTo g g' s) = wg s"
  "goroutines (moveTo g g' s) = remove1 g (goroutines s) @ [g']"
  "rootClient (moveTo g g' s) = rootClient s"
  by (simp_all add: moveTo_def)

lemma newClient_sel [simp]:
  "done_ch (fst (newClient e c s)) = done_ch s"
  "rootClient (fst (newClient e c s)) = rootClient s"
  by (simp_all add: newClient_def Let_def wgAdd_def go_def split: sum.splits prod.splits)

lemma newClient_trace:
  "\<exists>as. trace (fst (newClient e c s)) = trace s @ as"
  by (simp add: newClient_def Let_def wgAdd_def go_def split: sum.splits prod.splits)

lemma hangUpClient_sel [simp]:
  "done_ch (hangUpClient e c s) = done_ch s"
  "rootClient (hangUpClient e c s) = rootClient s"
  "wg (hangUpClient e c s) = wg s"
  "goroutines (hangUpClient e c s) = goroutines s"
  "clients (hangUpClient e c s) = removeAll c (clients s)"
  "trace (hangUpClient e c s) = trace s @ hangUpLog e c"
  by (simp_all add: hangUpClient_def hangUpLog_def Let_def split: option.splits)

lemma fold_hangUpClient_sel:
  "done_ch (fold (hangUpClient e) cs s) = done_ch s"
  "rootClient (fold (hangUpClient e) cs s) = rootClient s"
  "wg (fold (hangUpClient e) cs s) = wg s"
  "goroutines (fold (hangUpClient e) cs s) = goroutines s"
  "trace (fold (hangUpClient e) cs s) = trace s @ concat (map (hangUpLog e) cs)"
  by (induction cs arbitrary: s) simp_all

lemma fold_hangUpClient_clients:
  "clients (fold (hangUpClient e) cs s) = filter (\<lambda>c. c \<notin> set cs) (clients s)"
proof (induction cs arbitrary: s)
  case Nil
  then show ?case by simp
next
  case (Cons c cs)
  have "filter (\<lambda>x. x \<notin> set cs) (removeAll c (clients s)) =
        filter (\<lambda>x. x \<notin> set (c # cs)) (clients s)"
    by (auto simp: removeAll_filter_not_eq intro!: filter_cong)
  with Cons show ?case by simp
qed

lemma hangUpAllClients_sel [simp]:
  "done_ch (hangUpAllClients e s) = done_ch s"
  "rootClient (hangUpAllClients e s) = rootClient s"
  "wg (hangUpAllClients e s) = wg s"
  "goroutines (hangUpAllClients e s) = goroutines s"
  "trace (hangUpAllClients e s) = trace s @ concat (map (hangUpLog e) (clients s))"
  "clients (hangUpAllClients e s) = []"
  by (simp_all add: hangUpAllClients_def fold_hangUpClient_sel fold_hangUpClient_clients)

lemma closeDone_sel [simp]:
  "done_ch (closeDone s) = True" "rootClient (closeDone s) = rootClient s"
  "wg (closeDone s) = wg s" "goroutines (closeDone s) = goroutines s"
  "clients (closeDone s) = clients s" "trace (closeDone s) = trace s @ [CloseDone]"
  by (simp_all add: closeDone_def)

lemma closeListener_sel [simp]:
  "done_ch (closeListener e s) = done_ch s" "rootClient (closeListener e s) = rootClient s"
  "wg (closeListener e s) = wg s" "goroutines (closeListener e s) = goroutines s"
  "clients (closeListener e s) = clients s"
  "trace (closeListener e s) =
     trace s @ [LnClose] @
     (case lnClose e of Some err \<Rightarrow> [Println (''error closing listener: '' @ err)] | None \<Rightarrow> []) @
     [Println ''closed listener'']"
  by (simp_all add: closeListener_def Let_def split: option.splits)

lemma shutdownController_sel [simp]:
  "done_ch (shutdownController s) = done_ch s"
  "rootClient (shutdownController s) = rootClient s"
  "wg (shutdownController s) = wg s" "goroutines (shutdownController s) = goroutines s"
  "clients (shutdownController s) = clients s"
  "trace (shutdownController s) = trace s @ [Println ''shutting down'', Shutdown (rootClient s)]"
  by (simp_all add: shutdownController_def)

lemma wgWait_sel [simp]:
  "done_ch (wgWait s) = done_ch s" "rootClient (wgWait s) = rootClient s"
  "wg (wgWait s) = wg s" "goroutines (wgWait s) = goroutines s"
  "clients (wgWait s) = clients s" "trace (wgWait s) = trace s @ [WgWait]"
  by (simp_all add: wgWait_def)

lemma listenFailed_sel [simp]:
  "done_ch (listenFailed err s) = done_ch s" "rootClient (listenFailed err s) = rootClient s"
  "wg (listenFailed err s) = wg s" "goroutines (listenFailed err s) = goroutines s"
  "clients (listenFailed err s) = clients s"
  "trace (listenFailed err s) = trace s @ [Println (''couldn't open server: '' @ err)]"
  by (simp_all add: listenFailed_def)

lemma startAccept_sel [simp]:
  "done_ch (startAccept s) = done_ch s" "rootClient (startAccept s) = rootClient s"
  "wg (startAccept s) = wg s + 1" "goroutines (startAccept s) = goroutines s @ [Acceptor]"
  "clients (startAccept s) = clients s"
  "trace (startAccept s) = trace s @ [Println (''now listening on '' @ host s)]"
  by (simp_all add: startAccept_def go_def wgAdd_def)

lemma mainLoop_case_sel [simp]:
  "done_ch (fst (mainLoop_case e ev s)) = done_ch s"
  "rootClient (fst (mainLoop_case e ev s)) = rootClient s"
  by (cases ev; simp add: Let_def split: prod.splits option.splits;
      metis fst_conv newClient_sel)+

lemma mainLoop_case_trace:
  "\<exists>as. trace (fst (mainLoop_case e ev s)) = trace s @ as"
proof (cases ev)
  case (AccConn c)
  obtain as where "trace (fst (newClient e c s)) = trace s @ as"
    using newClient_trace by blast
  then show ?thesis using AccConn
    by (auto simp: Let_def split: prod.splits option.splits)
qed simp_all

lemma mainLoop_keeps:
  "done_ch (fst (mainLoop e evs s)) = done_ch s \<and>
   rootClient (fst (mainLoop e evs s)) = rootClient s"
proof (induction evs arbitrary: s)
  case Nil
  show ?case by simp
next
  case (Cons ev evs)
  obtain s' ret where c: "mainLoop_case e ev s = (s', ret)"
    by (cases "mainLoop_case e ev s")
  have s': "done_ch s' = done_ch s" "rootClient s' = rootClient s"
    using mainLoop_case_sel[of e ev s] c by simp_all
  have u: "mainLoop e (ev # evs) s = (if ret then (s', Returned) else mainLoop e evs s')"
    by (simp add: c)
  show ?case unfolding u using Cons[of s'] s' by simp
qed

lemmas mainLoop_sel [simp] = mainLoop_keeps [THEN conjunct1] mainLoop_keeps [THEN conjunct2]

lemma recv_sel [simp]:
  "done_ch (srv (recv e ev st)) = done_ch (srv st)"
  "rootClient (srv (recv e ev st)) = rootClient (srv st)"
  "apc (recv e ev st) = apc st"
  "acc_closed (recv e ev st) = acc_closed st"
  "mpc (recv e ev st) = (if snd (mainLoop_case e ev (srv st)) then MainCloseDone else MainLoop)"
  "srv (recv e ev st) = fst (mainLoop_case e ev (srv st))"
  by (simp_all add: recv_def split_beta)

lemma recv_trace: "\<exists>as. trace (srv (recv e ev st)) = trace (srv st) @ as"
  using mainLoop_case_trace [of e ev "srv st"] by simp

lemma mainLoop_case_returns:
  "snd (mainLoop_case e ev s) \<longleftrightarrow> (\<exists>err. ev = AccErr err) \<or> ev = RootDone"
  by (cases ev) (simp_all add: Let_def split: prod.splits option.splits)

declare mainLoop_case.simps [simp del]

lemmas ev_defs = env0_def srv0_def cli1_def st_listening_def st_serving_def st_closing_def st_hangup_def st_hangup_done_def st_acc_failed_def New_def start_def emit_def println_def wgAdd_def go_def
  newClient_def hangUpClient_def hangUpAllClients_def closeDone_def closeListener_def wgWait_def
  shutdownController_def listenFailed_def startAccept_def emits_def wgDone_def moveTo_def
  recv_def acceptorReturns_def outputError_def mainLoop_case.simps Let_def

subsection \<open>The channel \<open>done\<close> is closed only after the main loop\<close>

lemma step_done_inv:
  assumes "done_inv st" "step e x st = Some st'"
  shows "done_inv st'"
proof (cases x)
  case (Listen lres)
  with assms show ?thesis
    by (auto simp: done_inv_def left_loop_def split: if_splits option.splits)
next
  case (Accept res)
  with assms show ?thesis
    by (auto simp: done_inv_def left_loop_def split: if_splits sum.splits)
next
  case AccSend
  with assms show ?thesis
    by (auto simp: done_inv_def left_loop_def acceptorReturns_def split: if_splits acc_pc.splits)
next
  case AccDone
  with assms show ?thesis
    by (auto simp: done_inv_def left_loop_def acceptorReturns_def split: if_splits acc_pc.splits)
next
  case (TxRun cli rs sends)
  with assms show ?thesis
    by (auto simp: done_inv_def left_loop_def split: if_splits prod.splits status.splits)
next
  case (TxSend cli)
  with assms show ?thesis
    by (auto simp: done_inv_def left_loop_def Let_def split: if_splits)
next
  case (TxDone cli)
  with assms show ?thesis
    by (auto simp: done_inv_def left_loop_def split: if_splits)
next
  case (RxRun cli ms ws)
  with assms show ?thesis
    by (auto simp: done_inv_def left_loop_def split: if_splits prod.splits status.splits)
next
  case (BifrostExit b)
  with assms show ?thesis
    by (auto simp: done_inv_def left_loop_def split: if_splits)
next
  case (RootRxRecv r)
  with assms show ?thesis
    by (auto simp: done_inv_def left_loop_def split: if_splits)
next
  case RootDoneRecv
  with assms show ?thesis
    by (auto simp: done_inv_def left_loop_def split: if_splits)
next
  case ClosedErrRecv
  with assms show ?thesis
    by (auto simp: done_inv_def left_loop_def split: if_splits)
next
  case ClosedConnRecv
  with assms show ?thesis
    by (auto simp: done_inv_def left_loop_def split: if_splits)
next
  case Main
  with assms show ?thesis
    by (auto simp: done_inv_def left_loop_def split: if_splits main_pc.splits)
qed

lemma exec_done_inv:
  "done_inv st \<Longrightarrow> exec e sched st = Some st' \<Longrightarrow> done_inv st'"
proof (induction sched arbitrary: st)
  case Nil
  then show ?case by simp
next
  case (Cons x xs)
  then show ?case
    by (auto split: option.splits dest: step_done_inv)
qed

lemma start_done_inv: "done_inv (start (New h rc rb))"
  by (simp add: done_inv_def start_def New_def)

subsection \<open>Nothing is received from the closed channels of the acceptor\<close>

lemma step_closed_inv:
  assumes "closed_inv st" "step e x st = Some st'"
  shows "closed_inv st'"
proof -
  have d: "done_inv st'"
    using assms step_done_inv by (auto simp: closed_inv_def)
  have "mpc st' \<noteq> MainPanicked \<and>
        (acc_closed st' \<longrightarrow> mpc st' \<noteq> MainStart \<and> mpc st' \<noteq> MainLoop)"
  proof (cases x)
    case (Listen lres)
    with assms show ?thesis
      by (auto simp: closed_inv_def split: if_splits option.splits)
  next
    case (Accept res)
    with assms show ?thesis
      by (auto simp: closed_inv_def split: if_splits sum.splits)
  next
    case AccSend
    with assms show ?thesis
      by (auto simp: closed_inv_def acceptorReturns_def mainLoop_case_returns
               split: if_splits acc_pc.splits)
  next
    case AccDone
    with assms show ?thesis
      by (auto simp: closed_inv_def done_inv_def left_loop_def acceptorReturns_def
               split: if_splits acc_pc.splits)
  next
    case (TxRun cli rs sends)
    with assms show ?thesis
      by (auto simp: closed_inv_def split: if_splits prod.splits status.splits)
  next
    case (RxRun cli ms ws)
    with assms show ?thesis
      by (auto simp: closed_inv_def split: if_splits prod.splits status.splits)
  next
    case Main
    with assms show ?thesis
      by (auto simp: closed_inv_def split: if_splits main_pc.splits)
  qed (use assms in \<open>auto simp: closed_inv_def Let_def split: if_splits\<close>)
  with d show ?thesis by (simp add: closed_inv_def)
qed

lemma exec_closed_inv:
  "closed_inv st \<Longrightarrow> exec e sched st = Some st' \<Longrightarrow> closed_inv st'"
proof (induction sched arbitrary: st)
  case Nil
  then show ?case by simp
next
  case (Cons x xs)
  then show ?case
    by (auto split: option.splits dest: step_closed_inv)
qed

lemma closed_channels_never_received:
  assumes "exec e sched (start (New h rc rb)) = Some st"
  shows "step e ClosedErrRecv st = None \<and> step e ClosedConnRecv st = None
       \<and> mpc st \<noteq> MainPanicked"
proof -
  have "closed_inv (start (New h rc rb))"
    by (simp add: closed_inv_def done_inv_def start_def New_def)
  then have "closed_inv st"
    using assms by (rule exec_closed_inv)
  then show ?thesis
    by (auto simp: closed_inv_def)
qed

subsection \<open>The root handle is shut down before the wait\<close>

lemma recv_member:
  "a \<in> set (trace (srv st)) \<Longrightarrow> a \<in> set (trace (srv (recv e ev st)))"
  using recv_trace [of e ev st] by (auto simp del: recv_sel)

lemma step_shutdown_inv:
  assumes "shutdown_inv rc st" "step e x st = Some st'"
  shows "shutdown_inv rc st'"
proof (cases x)
  case (Listen lres)
  with assms show ?thesis
    by (auto simp: shutdown_inv_def split: if_splits option.splits)
next
  case (Accept res)
  with assms show ?thesis
    by (auto simp: shutdown_inv_def split: if_splits sum.splits)
next
  case AccSend
  with assms show ?thesis
    by (auto simp: shutdown_inv_def acceptorReturns_def split: if_splits acc_pc.splits)
next
  case AccDone
  with assms show ?thesis
    by (auto simp: shutdown_inv_def acceptorReturns_def split: if_splits acc_pc.splits)
next
  case (TxRun cli rs sends)
  with assms show ?thesis
    by (auto simp: shutdown_inv_def split: if_splits prod.splits status.splits)
next
  case (TxSend cli)
  with assms show ?thesis
    by (auto simp: shutdown_inv_def Let_def split: if_splits)
next
  case (TxDone cli)
  with assms show ?thesis
    by (auto simp: shutdown_inv_def split: if_splits)
next
  case (RxRun cli ms ws)
  with assms show ?thesis
    by (auto simp: shutdown_inv_def split: if_splits prod.splits status.splits)
next
  case (BifrostExit b)
  with assms show ?thesis
    by (auto simp: shutdown_inv_def split: if_splits)
next
  case (RootRxRecv r)
  with assms show ?thesis
    by (auto simp: shutdown_inv_def split: if_splits)
next
  case RootDoneRecv
  with assms show ?thesis
    by (auto simp: shutdown_inv_def split: if_splits)
next
  case ClosedErrRecv
  with assms show ?thesis
    by (auto simp: shutdown_inv_def split: if_splits)
next
  case ClosedConnRecv
  with assms show ?thesis
    by (auto simp: shutdown_inv_def split: if_splits)
next
  case Main
  with assms show ?thesis
    by (auto simp: shutdown_inv_def split: if_splits main_pc.splits)
qed

lemma exec_shutdown_inv:
  "shutdown_inv rc st \<Longrightarrow> exec e sched st = Some st' \<Longrightarrow> shutdown_inv rc st'"
proof (induction sched arbitrary: st)
  case Nil
  then show ?case by simp
next
  case (Cons x xs)
  then show ?case
    by (auto split: option.splits dest: step_shutdown_inv)
qed

lemma step_bind_failed_inv:
  assumes "bind_failed_inv st" "step e x st = Some st'"
  shows "bind_failed_inv st'"
proof (cases x)
  case (Accept res)
  with assms show ?thesis
    by (auto simp: bind_failed_inv_def split: if_splits sum.splits)
next
  case (TxRun cli rs sends)
  with assms show ?thesis
    by (auto simp: bind_failed_inv_def split: if_splits prod.splits status.splits)
next
  case (RxRun cli ms ws)
  with assms show ?thesis
    by (auto simp: bind_failed_inv_def split: if_splits prod.splits status.splits)
next
  case Main
  with assms show ?thesis
    by (auto simp: bind_failed_inv_def split: if_splits main_pc.splits)
qed (use assms in \<open>auto simp: bind_failed_inv_def split: if_splits\<close>)

lemma exec_bind_failed_inv:
  "bind_failed_inv st \<Longrightarrow> exec e sched st = Some st' \<Longrightarrow> bind_failed_inv st'"
proof (induction sched arbitrary: st)
  case Nil
  then show ?case by simp
next
  case (Cons x xs)
  then show ?case
    by (auto split: option.splits dest: step_bind_failed_inv)
qed

subsection \<open>The loops of a client\<close>

lemma RunTx_prefix:
  assumes "\<forall>r \<in> set pre. \<exists>l m. r = ReadLine l \<and> lineToMessage e l = Inr m"
  shows "RunTx e c (pre @ rs) (replicate (length pre) True @ sends) =
           (fst (RunTx e c pre (replicate (length pre) True)) @ fst (RunTx e c rs sends),
            snd (RunTx e c rs sends))"
  using assms
proof (induction pre)
  case Nil
  then show ?case by simp
next
  case (Cons r pre)
  then obtain l m where r: "r = ReadLine l" "lineToMessage e l = Inr m" by auto
  with Cons show ?case by (simp add: split_beta)
qed

lemma RunRx_pack_failure:
  assumes "pack e m = Inl err"
  shows "RunRx e c (m # ms) closed ws =
           (outputError err # fst (RunRx e c ms closed ws), snd (RunRx e c ms closed ws))"
  using assms by (simp add: split_beta)

lemma RunRx_write_failure:
  assumes "pack e m = Inr mbytes"
  shows "RunRx e c (m # ms) closed (Some err # ws) = ([outputError err], Returned)"
  using assms by simp

lemma RxRun_changes:
  assumes "step e (RxRun c ms ws) st = Some st'"
  shows "clients (srv st') = clients (srv st) \<and> mpc st' = mpc st
       \<and> goroutines (srv st') = remove1 (RxLoop c) (goroutines (srv st))"
  using assms by (auto split: if_splits prod.splits status.splits)

section \<open>The claims\<close>

subsection \<open>C1: a line that does not parse\<close>

text \<open>
  C1, as the code has it. When \<open>r.ReadLine()\<close> gives a line and \<open>bifrost.LineToMessage\<close>
  fails on it, after any number of lines that were parsed and sent, \<open>RunTx\<close> logs the
  error and returns: the line is not sent to the adapter, so it never reaches the
  Controller, no Response is produced for it, and the lines after it are not read. The
  goroutine then offers the client on \<open>clientHangUp\<close>, racing \<open>done\<close>: when the main
  loop receives it, it closes the connection and deletes it from the live set and stays
  in its loop; when \<open>done\<close> is closed the goroutine ends.
\<close>

theorem malformed_line_ends_RunTx:
  assumes "lineToMessage e line = Inl merr"
    and "\<forall>r \<in> set pre. \<exists>l m. r = ReadLine l \<and> lineToMessage e l = Inr m"
  shows "RunTx e c (pre @ ReadLine line # rest) (replicate (length pre) True @ sends) =
           (fst (RunTx e c pre (replicate (length pre) True)) @ [outputError merr], Returned)
     \<and> (TxLoop c \<in> set (goroutines (srv st)) \<longrightarrow>
          step e (TxRun c (pre @ ReadLine line # rest) (replicate (length pre) True @ sends)) st =
            Some (st\<lparr>srv := moveTo (TxLoop c) (TxSelect c)
                     (emits (fst (RunTx e c pre (replicate (length pre) True)) @ [outputError merr])
                        (srv st))\<rparr>))
     \<and> (mpc st' = MainLoop \<and> TxSelect c \<in> set (goroutines (srv st')) \<longrightarrow>
          step e (TxSend c) st' = Some (st'\<lparr>srv := wgDone (TxSelect c) (hangUpClient e c (srv st'))\<rparr>)
          \<and> trace (wgDone (TxSelect c) (hangUpClient e c (srv st'))) =
              trace (srv st') @ hangUpLog e c
          \<and> clients (wgDone (TxSelect c) (hangUpClient e c (srv st'))) =
              removeAll c (clients (srv st')))
     \<and> (done_ch (srv st'') \<and> TxSelect c \<in> set (goroutines (srv st'')) \<longrightarrow>
          step e (TxDone c) st'' = Some (st''\<lparr>srv := wgDone (TxSelect c) (srv st'')\<rparr>))"
proof -
  have 1: "RunTx e c (pre @ ReadLine line # rest) (replicate (length pre) True @ sends) =
           (fst (RunTx e c pre (replicate (length pre) True)) @ [outputError merr], Returned)"
    using RunTx_prefix [OF assms(2), of c "ReadLine line # rest" sends] assms(1) by simp
  show ?thesis
    by (simp add: 1 recv_def mainLoop_case.simps)
qed

theorem malformed_line_ends_RunTx_witness:
  "lineToMessage env0 [] = Inl ''empty line''
   \<and> RunTx env0 cli1 [ReadLine [''dump''], ReadLine [], ReadLine [''next'']] [True, True] =
       ([Send 31 [''dump''], Println ''connection error: empty line''], Returned)
   \<and> step env0 (TxRun cli1 [ReadLine [''dump''], ReadLine [], ReadLine [''next'']] [True, True])
        st_serving = Some st_hangup
   \<and> step env0 (TxSend cli1) st_hangup =
       Some (st_hangup\<lparr>srv := wgDone (TxSelect cli1) (hangUpClient env0 cli1 (srv st_hangup))\<rparr>)
   \<and> trace (wgDone (TxSelect cli1) (hangUpClient env0 cli1 (srv st_hangup))) =
       [Println ''now listening on localhost:1350'', Println ''new connection: 10.0.0.1:4000'',
        Send 31 [''dump''], Println ''connection error: empty line'',
        Println ''hanging up: 10.0.0.1:4000'', ConnClose 1]
   \<and> clients (wgDone (TxSelect cli1) (hangUpClient env0 cli1 (srv st_hangup))) = []
   \<and> step env0 (TxDone cli1) st_hangup_done =
       Some (st_hangup_done\<lparr>srv := wgDone (TxSelect cli1) (srv st_hangup_done)\<rparr>)"
proof -
  have h1: "lineToMessage env0 [] = Inl ''empty line''"
    by (simp add: env0_def)
  have h2: "\<forall>r \<in> set [ReadLine [''dump'']]. \<exists>l m. r = ReadLine l \<and> lineToMessage env0 l = Inr m"
    by (simp add: env0_def)
  have g1: "TxLoop cli1 \<in> set (goroutines (srv st_serving))"
    by (simp add: ev_defs)
  have g2: "mpc st_hangup = MainLoop \<and> TxSelect cli1 \<in> set (goroutines (srv st_hangup))"
    by (simp add: ev_defs)
  have g3: "done_ch (srv st_hangup_done) \<and> TxSelect cli1 \<in> set (goroutines (srv st_hangup_done))"
    by (simp add: ev_defs)
  have p: "fst (RunTx env0 cli1 [ReadLine [''dump'']] (replicate (length [ReadLine [''dump'']]) True))
             = [Send 31 [''dump'']]"
    by (simp add: env0_def cli1_def)
  have s: "st_serving\<lparr>srv := moveTo (TxLoop cli1) (TxSelect cli1)
             (emits [Send 31 [''dump''], Println ''connection error: empty line'']
                (srv st_serving))\<rparr> = st_hangup"
    by (simp add: st_hangup_def st_serving_def)
  have t: "trace (srv st_hangup) @ hangUpLog env0 cli1 =
       [Println ''now listening on localhost:1350'', Println ''new connection: 10.0.0.1:4000'',
        Send 31 [''dump''], Println ''connection error: empty line'',
        Println ''hanging up: 10.0.0.1:4000'', ConnClose 1]"
    by (simp add: ev_defs hangUpLog_def)
  have c: "removeAll cli1 (clients (srv st_hangup)) = []"
    by (simp add: ev_defs)
  have eq1: "[ReadLine [''dump'']] @ ReadLine [] # [ReadLine [''next'']] =
             [ReadLine [''dump''], ReadLine [], ReadLine [''next'']]"
    by simp
  have eq2: "replicate (length [ReadLine [''dump'']]) True @ [True] = [True, True]"
    by simp
  note T = malformed_line_ends_RunTx [OF h1 h2, of cli1 "[ReadLine [''next'']]" "[True]"
        st_serving st_hangup st_hangup_done, unfolded eq1 eq2 p]
  from T g1 g2 g3 show ?thesis
    by (simp del: RunTx.simps step.simps add: s t c h1 outputError_def)
qed

text \<open>
  The claim as it was stated fails: after the empty line the loop has returned, the line
  \<open>next\<close> behind it is never read, and once the main loop has taken the hang-up the
  socket of the connection is closed and the live set is empty.
\<close>

theorem malformed_line_counterexample:
  "RunTx env0 cli1 [ReadLine [], ReadLine [''next'']] [True] =
     ([Println ''connection error: empty line''], Returned)
   \<and> exec env0
        [Listen None, Accept (Inr 1), AccSend,
         TxRun cli1 [ReadLine [], ReadLine [''next'']] [True], TxSend cli1]
        (start srv0) =
       Some \<lparr>srv = \<lparr>host = ''localhost:1350'', rootClient = 0, rootBifrost = 0, clients = [],
                   done_ch = False, wg = 3,
                   trace = [Println ''now listening on localhost:1350'',
                            Println ''new connection: 10.0.0.1:4000'',
                            Println ''connection error: empty line'',
                            Println ''hanging up: 10.0.0.1:4000'', ConnClose 1],
                   goroutines = [Acceptor, RxLoop cli1, BifrostRun 21]\<rparr>,
             mpc = MainLoop, apc = AccAccept, acc_closed = False\<rparr>"
  by (simp add: ev_defs)

subsection \<open>C2: the hash guard of a selection request\<close>

text \<open>
  C2. Processing \<open>SetSelect{Index, Hash}\<close> succeeds exactly when there is an item at
  \<open>Index\<close> and its hash is \<open>Hash\<close>. On success the selection becomes \<open>Index\<close> and one
  selection-changed Response goes to the \<open>Rx\<close> of every attached handle; otherwise the
  state is unchanged and the only Response is one rejection on the requester's
  \<open>ReplyTx\<close>.
\<close>

theorem setSelect_hash_guard:
  "(itemAt (items ctl) idx = Some it \<and> hash it = h \<longrightarrow>
      setSelect hash ctl origin idx h =
        (ctl\<lparr>selection := idx\<rparr>, map (\<lambda>rx. (rx, SelectionChanged idx)) (attached ctl)))
   \<and> (\<not> (\<exists>x. itemAt (items ctl') idx' = Some x \<and> hash x = h') \<longrightarrow>
      setSelect hash ctl' origin' idx' h' = (ctl', [(ReplyTx origin', SelectRejected)]))
   \<and> (SelectRejected \<notin> snd ` set (snd (setSelect hash ctl origin idx h)) \<longleftrightarrow>
        (\<exists>x. itemAt (items ctl) idx = Some x \<and> hash x = h))"
proof -
  have ok: "itemAt (items ctl) idx = Some it \<and> hash it = h \<longrightarrow>
      setSelect hash ctl origin idx h =
        (ctl\<lparr>selection := idx\<rparr>, map (\<lambda>rx. (rx, SelectionChanged idx)) (attached ctl))"
    by (simp add: setSelect_def)
  have stale: "\<not> (\<exists>x. itemAt (items ctl') idx' = Some x \<and> hash x = h') \<longrightarrow>
      setSelect hash ctl' origin' idx' h' = (ctl', [(ReplyTx origin', SelectRejected)])"
    by (cases "itemAt (items ctl') idx'") (simp_all add: setSelect_def)
  have iff: "SelectRejected \<notin> snd ` set (snd (setSelect hash ctl origin idx h)) \<longleftrightarrow>
        (\<exists>x. itemAt (items ctl) idx = Some x \<and> hash x = h)"
  proof (cases "itemAt (items ctl) idx")
    case None
    then show ?thesis by (simp add: setSelect_def)
  next
    case (Some x)
    then show ?thesis by (auto simp: setSelect_def)
  qed
  show ?thesis
    by (intro conjI) (rule ok stale iff)+
qed

theorem setSelect_hash_guard_witness:
  "itemAt (items ctl0) 1 = Some ''news'' \<and> hash0 ''news'' = ''#news''
   \<and> setSelect hash0 ctl0 \<lparr>Message = None, ReplyTx = 7\<rparr> 1 ''#news'' =
       (ctl0\<lparr>selection := 1\<rparr>, [(7, SelectionChanged 1), (8, SelectionChanged 1)])
   \<and> itemAt (items ctl0) 2 = Some ''jingle''
   \<and> setSelect hash0 ctl0 \<lparr>Message = None, ReplyTx = 7\<rparr> 2 ''#news'' =
       (ctl0, [(7, SelectRejected)])
   \<and> itemAt (items ctl0) 3 = None
   \<and> setSelect hash0 ctl0 \<lparr>Message = None, ReplyTx = 8\<rparr> 3 ''#news'' =
       (ctl0, [(8, SelectRejected)])"
proof -
  have a: "itemAt (items ctl0) 1 = Some ''news'' \<and> hash0 ''news'' = ''#news''"
    by (simp add: itemAt_def ctl0_def hash0_def)
  have b: "itemAt (items ctl0) 2 = Some ''jingle''" "itemAt (items ctl0) 3 = None"
    by (simp_all add: itemAt_def ctl0_def)
  have nb: "\<not> (\<exists>x. itemAt (items ctl0) 2 = Some x \<and> hash0 x = ''#news'')"
    by (simp add: b hash0_def)
  have nc: "\<not> (\<exists>x. itemAt (items ctl0) 3 = Some x \<and> hash0 x = ''#news'')"
    by (simp add: b)
  show ?thesis
    using a b
      setSelect_hash_guard [of ctl0 1 "''news''" hash0 "''#news''" "\<lparr>Message = None, ReplyTx = 7\<rparr>"
        ctl0 2 "''#news''" "\<lparr>Message = None, ReplyTx = 7\<rparr>"]
      setSelect_hash_guard [of ctl0 1 "''news''" hash0 "''#news''" "\<lparr>Message = None, ReplyTx = 7\<rparr>"
        ctl0 3 "''#news''" "\<lparr>Message = None, ReplyTx = 8\<rparr>"]
      nb nc
    by (simp add: ctl0_def)
qed

subsection \<open>C3: the order of the shutdown\<close>

text \<open>
  C3, as the code has it. When the main loop returns, \<open>Run\<close> closes \<open>done\<close>, hangs up
  every live connection, closes the listener, and only then, in its deferred calls,
  shuts the root handle down and calls \<open>wg.Wait()\<close>: the goroutines are waited for after
  the listener is closed, not before. The counter and the goroutines are as the main
  loop left them when the wait begins.
\<close>

theorem Run_shutdown_order:
  assumes "snd (mainLoop e evs (startAccept s)) = Returned"
  shows "snd (Run e None evs s) = Returned
     \<and> trace (fst (Run e None evs s)) =
         trace (fst (mainLoop e evs (startAccept s))) @ [CloseDone] @
         concat (map (hangUpLog e) (clients (fst (mainLoop e evs (startAccept s))))) @
         [LnClose] @
         (case lnClose e of
            Some err \<Rightarrow> [Println (''error closing listener: '' @ err)] | None \<Rightarrow> []) @
         [Println ''closed listener'', Println ''shutting down'', Shutdown (rootClient s), WgWait]
     \<and> done_ch (fst (Run e None evs s))
     \<and> clients (fst (Run e None evs s)) = []
     \<and> wg (fst (Run e None evs s)) = wg (fst (mainLoop e evs (startAccept s)))
     \<and> goroutines (fst (Run e None evs s)) = goroutines (fst (mainLoop e evs (startAccept s)))"
proof -
  obtain s3 where m: "mainLoop e evs (startAccept s) = (s3, Returned)"
    using assms by (cases "mainLoop e evs (startAccept s)") simp
  have r: "rootClient s3 = rootClient s"
    using mainLoop_sel(2) [of e evs "startAccept s"] m by simp
  show ?thesis
    by (simp add: Run_def m r)
qed

theorem Run_shutdown_order_witness:
  "snd (mainLoop env0 [AccConn 1, RootDone] (startAccept srv0)) = Returned
   \<and> snd (Run env0 None [AccConn 1, RootDone] srv0) = Returned
   \<and> trace (fst (Run env0 None [AccConn 1, RootDone] srv0)) =
       [Println ''now listening on localhost:1350'', Println ''new connection: 10.0.0.1:4000'',
        Println ''received controller shutdown'', CloseDone,
        Println ''hanging up: 10.0.0.1:4000'', ConnClose 1, LnClose,
        Println ''closed listener'', Println ''shutting down'', Shutdown 0, WgWait]
   \<and> clients (fst (Run env0 None [AccConn 1, RootDone] srv0)) = []
   \<and> wg (fst (Run env0 None [AccConn 1, RootDone] srv0)) = 4"
proof -
  have m: "mainLoop env0 [AccConn 1, RootDone] (startAccept srv0) =
     (\<lparr>host = ''localhost:1350'', rootClient = 0, rootBifrost = 0, clients = [cli1],
       done_ch = False, wg = 4,
       trace = [Println ''now listening on localhost:1350'',
                Println ''new connection: 10.0.0.1:4000'',
                Println ''received controller shutdown''],
       goroutines = [Acceptor, TxLoop cli1, RxLoop cli1, BifrostRun 21]\<rparr>, Returned)"
    by (simp add: ev_defs)
  have h: "snd (mainLoop env0 [AccConn 1, RootDone] (startAccept srv0)) = Returned"
    by (simp only: m snd_conv)
  have l: "hangUpLog env0 cli1 = [Println ''hanging up: 10.0.0.1:4000'', ConnClose 1]"
    by (simp add: hangUpLog_def env0_def cli1_def)
  have r: "rootClient srv0 = 0" "lnClose env0 = None"
    by (simp_all add: srv0_def New_def env0_def)
  show ?thesis
    using Run_shutdown_order [OF h, unfolded m fst_conv] h
    by (simp del: mainLoop.simps add: l r)
qed

text \<open>
  The claim as it was stated fails: in the trace of \<open>Run\<close> the listener is closed before
  \<open>wg.Wait()\<close> is called; and in the run of the goroutines, at the moment the listener
  has been closed the four goroutines are all still alive and the counter is 4.
\<close>

theorem Run_shutdown_order_counterexample:
  "Run env0 None [AccConn 1, RootDone] srv0 =
     (\<lparr>host = ''localhost:1350'', rootClient = 0, rootBifrost = 0, clients = [],
       done_ch = True, wg = 4,
       trace = [Println ''now listening on localhost:1350'',
                Println ''new connection: 10.0.0.1:4000'',
                Println ''received controller shutdown'', CloseDone,
                Println ''hanging up: 10.0.0.1:4000'', ConnClose 1, LnClose,
                Println ''closed listener'', Println ''shutting down'', Shutdown 0, WgWait],
       goroutines = [Acceptor, TxLoop cli1, RxLoop cli1, BifrostRun 21]\<rparr>, Returned)
   \<and> exec env0 [Listen None, Accept (Inr 1), AccSend, RootDoneRecv, Main, Main, Main]
        (start srv0) =
       Some \<lparr>srv = \<lparr>host = ''localhost:1350'', rootClient = 0, rootBifrost = 0, clients = [],
                   done_ch = True, wg = 4,
                   trace = [Println ''now listening on localhost:1350'',
                            Println ''new connection: 10.0.0.1:4000'',
                            Println ''received controller shutdown'', CloseDone,
                            Println ''hanging up: 10.0.0.1:4000'', ConnClose 1, LnClose,
                            Println ''closed listener''],
                   goroutines = [Acceptor, TxLoop cli1, RxLoop cli1, BifrostRun 21]\<rparr>,
             mpc = MainShutdown, apc = AccAccept, acc_closed = False\<rparr>"
  by (simp add: ev_defs Run_def)

subsection \<open>C5: a connection accepted after \<open>done\<close> is closed\<close>

text \<open>
  C5. In every state the goroutines can reach from a new server, once \<open>done\<close> is closed
  an acceptor that holds an accepted connection \<open>c\<close> at its \<open>select\<close> cannot forward it
  (the main goroutine has left its \<open>select\<close>, so nothing receives from \<open>accConn\<close>); the
  case \<open><-s.done\<close> can fire, so the acceptor is not blocked, and it closes \<open>c\<close>, leaves
  the live set and the goroutines as they are and goes back to \<open>ln.Accept()\<close>.
\<close>

theorem accepted_after_done_is_closed:
  assumes "exec e sched (start (New h rc rb)) = Some st"
    and "done_ch (srv st)" and "apc st = AccSendConn c"
  shows "step e AccSend st = None
     \<and> step e AccDone st = Some (st\<lparr>srv := emit (ConnClose c) (srv st), apc := AccAccept\<rparr>)
     \<and> clients (emit (ConnClose c) (srv st)) = clients (srv st)
     \<and> goroutines (emit (ConnClose c) (srv st)) = goroutines (srv st)"
proof -
  have "done_inv st"
    using exec_done_inv [OF start_done_inv assms(1)] .
  with assms(2) have "mpc st \<noteq> MainLoop"
    by (auto simp: done_inv_def left_loop_def)
  with assms(2,3) show ?thesis by simp
qed

theorem accepted_after_done_is_closed_witness:
  "exec env0 [Listen None, RootDoneRecv, Main, Accept (Inr 2)] (start (New ''localhost:1350'' 0 0)) =
     Some (st_closing\<lparr>apc := AccSendConn 2\<rparr>)
   \<and> done_ch (srv (st_closing\<lparr>apc := AccSendConn 2\<rparr>))
   \<and> step env0 AccSend (st_closing\<lparr>apc := AccSendConn 2\<rparr>) = None
   \<and> step env0 AccDone (st_closing\<lparr>apc := AccSendConn 2\<rparr>) =
       Some (st_closing\<lparr>srv := emit (ConnClose 2) (srv st_closing)\<rparr>)
   \<and> trace (emit (ConnClose 2) (srv st_closing)) =
       [Println ''now listening on localhost:1350'', Println ''received controller shutdown'',
        CloseDone, ConnClose 2]
   \<and> clients (emit (ConnClose 2) (srv st_closing)) = []"
proof -
  have run: "exec env0 [Listen None, RootDoneRecv, Main, Accept (Inr 2)]
               (start (New ''localhost:1350'' 0 0)) = Some (st_closing\<lparr>apc := AccSendConn 2\<rparr>)"
    by (simp add: ev_defs)
  have d: "done_ch (srv (st_closing\<lparr>apc := AccSendConn 2\<rparr>))"
    by (simp add: st_closing_def)
  have a: "apc (st_closing\<lparr>apc := AccSendConn 2\<rparr>) = AccSendConn 2"
    by simp
  have u: "st_closing\<lparr>apc := AccSendConn 2, srv := emit (ConnClose 2) (srv st_closing),
              apc := AccAccept\<rparr> = st_closing\<lparr>srv := emit (ConnClose 2) (srv st_closing)\<rparr>"
    by (simp add: st_closing_def)
  have t: "trace (srv st_closing) =
       [Println ''now listening on localhost:1350'', Println ''received controller shutdown'',
        CloseDone]" "clients (srv st_closing) = []"
    by (simp_all add: ev_defs)
  show ?thesis
    using run d accepted_after_done_is_closed [OF run d a]
    by (simp del: step.simps exec.simps add: u t)
qed

subsection \<open>C6: a connection for which \<open>Copy\<close> fails\<close>

text \<open>
  C6. When \<open>s.rootClient.Copy()\<close> fails for an accepted connection, \<open>newClient\<close> closes
  the socket and returns the error; the main loop logs it and goes on with its next
  event; the live set, the goroutines and the counter of the WaitGroup are as before.
\<close>

theorem copy_failure_not_registered:
  assumes "copy e c = Inl err"
  shows "newClient e c s =
           (emits [Println (''new connection: '' @ remoteAddr e c), ConnClose c] s, Some err)
     \<and> mainLoop_case e (AccConn c) s =
           (emits [Println (''new connection: '' @ remoteAddr e c), ConnClose c,
                   Println (''error registering connection '' @ remoteAddr e c @ '': '' @ err)] s,
            False)
     \<and> mainLoop e (AccConn c # evs) s =
         mainLoop e evs
           (emits [Println (''new connection: '' @ remoteAddr e c), ConnClose c,
                   Println (''error registering connection '' @ remoteAddr e c @ '': '' @ err)] s)
     \<and> clients (fst (mainLoop_case e (AccConn c) s)) = clients s
     \<and> goroutines (fst (mainLoop_case e (AccConn c) s)) = goroutines s
     \<and> wg (fst (mainLoop_case e (AccConn c) s)) = wg s
     \<and> mpc (recv e (AccConn c) st) = MainLoop"
proof -
  have n: "newClient e c s =
           (emits [Println (''new connection: '' @ remoteAddr e c), ConnClose c] s, Some err)"
    using assms by (simp add: newClient_def emits_def emit_def println_def)
  have m: "mainLoop_case e (AccConn c) s =
           (emits [Println (''new connection: '' @ remoteAddr e c), ConnClose c,
                   Println (''error registering connection '' @ remoteAddr e c @ '': '' @ err)] s,
            False)"
    by (simp add: mainLoop_case.simps n emits_def println_def emit_def)
  show ?thesis
    by (simp add: n m mainLoop_case_returns)
qed

theorem copy_failure_not_registered_witness:
  "copy env0 2 = Inl ''controller shut down''
   \<and> newClient env0 2 (srv st_serving) =
       (emits [Println ''new connection: 10.0.0.2:4000'', ConnClose 2] (srv st_serving),
        Some ''controller shut down'')
   \<and> mainLoop env0 [AccConn 2, AccConn 2] (srv st_serving) =
       (emits [Println ''new connection: 10.0.0.2:4000'', ConnClose 2,
               Println ''error registering connection 10.0.0.2:4000: controller shut down'',
               Println ''new connection: 10.0.0.2:4000'', ConnClose 2,
               Println ''error registering connection 10.0.0.2:4000: controller shut down'']
          (srv st_serving), Blocked)
   \<and> clients (fst (mainLoop_case env0 (AccConn 2) (srv st_serving))) = [cli1]
   \<and> goroutines (fst (mainLoop_case env0 (AccConn 2) (srv st_serving))) =
       [Acceptor, TxLoop cli1, RxLoop cli1, BifrostRun 21]
   \<and> wg (fst (mainLoop_case env0 (AccConn 2) (srv st_serving))) = 4
   \<and> mpc (recv env0 (AccConn 2) st_serving) = MainLoop"
proof -
  have h: "copy env0 2 = Inl ''controller shut down''"
    by (simp add: env0_def)
  have a: "remoteAddr env0 2 = ''10.0.0.2:4000''"
    by (simp add: env0_def)
  have s: "clients (srv st_serving) = [cli1]"
    "goroutines (srv st_serving) = [Acceptor, TxLoop cli1, RxLoop cli1, BifrostRun 21]"
    "wg (srv st_serving) = 4"
    by (simp_all add: ev_defs)
  note T = copy_failure_not_registered [OF h, unfolded a]
  have 1: "mainLoop env0 [AccConn 2, AccConn 2] (srv st_serving) =
       (emits [Println ''new connection: 10.0.0.2:4000'', ConnClose 2,
               Println ''error registering connection 10.0.0.2:4000: controller shut down'']
          (emits [Println ''new connection: 10.0.0.2:4000'', ConnClose 2,
               Println ''error registering connection 10.0.0.2:4000: controller shut down'']
          (srv st_serving)), Blocked)"
    using T [of "srv st_serving" "[AccConn 2]" st_serving]
          T [of "emits [Println ''new connection: 10.0.0.2:4000'', ConnClose 2,
               Println ''error registering connection 10.0.0.2:4000: controller shut down'']
               (srv st_serving)" "[]" st_serving]
    by (simp del: mainLoop.simps(2) newClient_sel recv_sel)
  show ?thesis
    using T [of "srv st_serving" "[AccConn 2]" st_serving] h s 1
    by (simp del: mainLoop.simps add: emits_def)
qed

subsection \<open>C7: a failure of \<open>ln.Accept()\<close>\<close>

text \<open>
  C7. When \<open>ln.Accept()\<close> fails, the acceptor offers the error on \<open>accErr\<close>, racing
  \<open>done\<close>, and in both cases closes its channels and returns. The main loop, when it
  receives the error, logs it and returns, and \<open>Run\<close> then closes \<open>done\<close>, hangs up every
  client, closes the listener, shuts the root handle down and waits. The main loop
  returns on no other event than an acceptor error and the Controller's shutdown: neither
  a failed registration nor a hang-up ends it.
\<close>

theorem accept_error_is_fatal:
  "(apc st = AccAccept \<and> mpc st = MainLoop \<longrightarrow>
      exec e [Accept (Inl err), AccSend] st =
        Some (st\<lparr>srv := wgDone Acceptor
                          (println (''error accepting connections: '' @ err) (srv st)),
                 mpc := MainCloseDone, apc := AccReturned, acc_closed := True\<rparr>))
   \<and> (apc st' = AccAccept \<and> done_ch (srv st') \<longrightarrow>
      exec e [Accept (Inl err), AccDone] st' =
        Some (st'\<lparr>srv := wgDone Acceptor (srv st'), apc := AccReturned, acc_closed := True\<rparr>))
   \<and> (mpc st'' = MainCloseDone \<longrightarrow>
      exec e [Main, Main, Main, Main] st'' =
        Some (st''\<lparr>srv := wgWait (shutdownController (closeListener e
                            (hangUpAllClients e (closeDone (srv st''))))),
                   mpc := MainWait\<rparr>)
      \<and> done_ch (wgWait (shutdownController (closeListener e
                            (hangUpAllClients e (closeDone (srv st''))))))
      \<and> clients (wgWait (shutdownController (closeListener e
                            (hangUpAllClients e (closeDone (srv st'')))))) = []
      \<and> trace (wgWait (shutdownController (closeListener e
                            (hangUpAllClients e (closeDone (srv st'')))))) =
          trace (srv st'') @ [CloseDone] @ concat (map (hangUpLog e) (clients (srv st''))) @
          [LnClose] @
          (case lnClose e of
             Some err \<Rightarrow> [Println (''error closing listener: '' @ err)] | None \<Rightarrow> []) @
          [Println ''closed listener'', Println ''shutting down'',
           Shutdown (rootClient (srv st'')), WgWait])
   \<and> (snd (mainLoop_case e ev s) \<longleftrightarrow> (\<exists>x. ev = AccErr x) \<or> ev = RootDone)"
proof -
  have sent: "apc st = AccAccept \<and> mpc st = MainLoop \<longrightarrow>
      exec e [Accept (Inl err), AccSend] st =
        Some (st\<lparr>srv := wgDone Acceptor
                          (println (''error accepting connections: '' @ err) (srv st)),
                 mpc := MainCloseDone, apc := AccReturned, acc_closed := True\<rparr>)"
    by (simp add: acceptorReturns_def recv_def mainLoop_case.simps)
  have raced: "apc st' = AccAccept \<and> done_ch (srv st') \<longrightarrow>
      exec e [Accept (Inl err), AccDone] st' =
        Some (st'\<lparr>srv := wgDone Acceptor (srv st'), apc := AccReturned, acc_closed := True\<rparr>)"
    by (simp add: acceptorReturns_def)
  have down: "mpc st'' = MainCloseDone \<longrightarrow>
      exec e [Main, Main, Main, Main] st'' =
        Some (st''\<lparr>srv := wgWait (shutdownController (closeListener e
                            (hangUpAllClients e (closeDone (srv st''))))),
                   mpc := MainWait\<rparr>)
      \<and> done_ch (wgWait (shutdownController (closeListener e
                            (hangUpAllClients e (closeDone (srv st''))))))
      \<and> clients (wgWait (shutdownController (closeListener e
                            (hangUpAllClients e (closeDone (srv st'')))))) = []
      \<and> trace (wgWait (shutdownController (closeListener e
                            (hangUpAllClients e (closeDone (srv st'')))))) =
          trace (srv st'') @ [CloseDone] @ concat (map (hangUpLog e) (clients (srv st''))) @
          [LnClose] @
          (case lnClose e of
             Some err \<Rightarrow> [Println (''error closing listener: '' @ err)] | None \<Rightarrow> []) @
          [Println ''closed listener'', Println ''shutting down'',
           Shutdown (rootClient (srv st'')), WgWait]"
    by simp
  have only: "snd (mainLoop_case e ev s) \<longleftrightarrow> (\<exists>x. ev = AccErr x) \<or> ev = RootDone"
    by (rule mainLoop_case_returns)
  show ?thesis
    by (intro conjI) (rule sent raced down only)+
qed

theorem accept_error_is_fatal_witness:
  "exec env0 [Accept (Inl ''accept tcp: too many open files''), AccSend] st_serving =
     Some st_acc_failed
   \<and> exec env0 [Accept (Inl ''use of closed network connection''), AccDone] st_closing =
     Some (st_closing\<lparr>srv := wgDone Acceptor (srv st_closing), apc := AccReturned,
                      acc_closed := True\<rparr>)
   \<and> exec env0 [Main, Main, Main, Main] st_acc_failed =
     Some (st_acc_failed\<lparr>srv := wgWait (shutdownController (closeListener env0
                            (hangUpAllClients env0 (closeDone (srv st_acc_failed))))),
                   mpc := MainWait\<rparr>)
   \<and> trace (wgWait (shutdownController (closeListener env0
                            (hangUpAllClients env0 (closeDone (srv st_acc_failed)))))) =
       [Println ''now listening on localhost:1350'', Println ''new connection: 10.0.0.1:4000'',
        Println ''error accepting connections: accept tcp: too many open files'', CloseDone,
        Println ''hanging up: 10.0.0.1:4000'', ConnClose 1, LnClose,
        Println ''closed listener'', Println ''shutting down'', Shutdown 0, WgWait]
   \<and> snd (mainLoop_case env0 (AccErr ''accept tcp: too many open files'') srv0)
   \<and> \<not> snd (mainLoop_case env0 (AccConn 2) srv0)"
proof -
  have h1: "apc st_serving = AccAccept \<and> mpc st_serving = MainLoop"
    by (simp add: st_serving_def)
  have h2: "apc st_closing = AccAccept \<and> done_ch (srv st_closing)"
    by (simp add: st_closing_def)
  have h3: "mpc st_acc_failed = MainCloseDone"
    by (simp add: st_acc_failed_def)
  have u: "st_serving\<lparr>srv := wgDone Acceptor
             (println (''error accepting connections: '' @ ''accept tcp: too many open files'')
                (srv st_serving)),
           mpc := MainCloseDone, apc := AccReturned, acc_closed := True\<rparr> = st_acc_failed"
    by (simp add: st_acc_failed_def st_serving_def)
  have t: "trace (srv st_acc_failed) =
       [Println ''now listening on localhost:1350'', Println ''new connection: 10.0.0.1:4000'',
        Println ''error accepting connections: accept tcp: too many open files'']"
    "clients (srv st_acc_failed) = [cli1]" "rootClient (srv st_acc_failed) = 0"
    "lnClose env0 = None"
    "hangUpLog env0 cli1 = [Println ''hanging up: 10.0.0.1:4000'', ConnClose 1]"
    by (simp_all add: ev_defs hangUpLog_def)
  note A = accept_error_is_fatal [of st_serving env0 "''accept tcp: too many open files''"
      st_closing st_acc_failed "AccErr ''accept tcp: too many open files''" srv0]
  note B = accept_error_is_fatal [of st_serving env0 "''use of closed network connection''"
      st_closing st_acc_failed "AccConn 2" srv0]
  have a1: "exec env0 [Accept (Inl ''accept tcp: too many open files''), AccSend] st_serving =
     Some st_acc_failed"
    using A h1 by (simp only: u)
  have a2: "exec env0 [Accept (Inl ''use of closed network connection''), AccDone] st_closing =
     Some (st_closing\<lparr>srv := wgDone Acceptor (srv st_closing), apc := AccReturned,
                      acc_closed := True\<rparr>)"
    using B h2 by blast
  have a3: "exec env0 [Main, Main, Main, Main] st_acc_failed =
     Some (st_acc_failed\<lparr>srv := wgWait (shutdownController (closeListener env0
                            (hangUpAllClients env0 (closeDone (srv st_acc_failed))))),
                   mpc := MainWait\<rparr>)"
    using A h3 by blast
  have a4: "trace (wgWait (shutdownController (closeListener env0
                            (hangUpAllClients env0 (closeDone (srv st_acc_failed)))))) =
       [Println ''now listening on localhost:1350'', Println ''new connection: 10.0.0.1:4000'',
        Println ''error accepting connections: accept tcp: too many open files'', CloseDone,
        Println ''hanging up: 10.0.0.1:4000'', ConnClose 1, LnClose,
        Println ''closed listener'', Println ''shutting down'', Shutdown 0, WgWait]"
    using A h3 by (simp add: t)
  have a5: "snd (mainLoop_case env0 (AccErr ''accept tcp: too many open files'') srv0)"
    using A by blast
  have a6: "\<not> snd (mainLoop_case env0 (AccConn 2) srv0)"
    using B by blast
  from a1 a2 a3 a4 a5 a6 show ?thesis by blast
qed

subsection \<open>C8: a failed write in \<open>RunRx\<close>\<close>

text \<open>
  C8, at a socket whose first write fails. \<open>RunRx\<close> logs the error and returns, and the
  Response behind it is not written. The goroutine of \<open>RunRx\<close> then only calls
  \<open>s.wg.Done()\<close>: the client stays in the live set, its socket is not closed, its
  transmit goroutine is still inside \<open>RunTx\<close>, and no hang-up can be received for it. A
  Response that does not pack is logged and the loop goes on with the next one. The
  lemmas \<open>RunRx_write_failure\<close>, \<open>RunRx_pack_failure\<close> and \<open>RxRun_changes\<close> say the
  same of every input.
\<close>

theorem RunRx_write_failure_no_hangup:
  "RunRx env0 cli1 [[''OHAI''], [''IAMA'']] True [Some ''write: broken pipe''] =
     ([Println ''connection error: write: broken pipe''], Returned)
   \<and> RunRx env0 cli1 [[], [''IAMA'']] True [None] =
     ([Println ''connection error: empty message'', ConnWrite 1 ''IAMA''], Returned)
   \<and> exec env0
        [Listen None, Accept (Inr 1), AccSend,
         RxRun cli1 [[''OHAI''], [''IAMA'']] [Some ''write: broken pipe'']]
        (start srv0) =
       Some \<lparr>srv = \<lparr>host = ''localhost:1350'', rootClient = 0, rootBifrost = 0,
                   clients = [cli1], done_ch = False, wg = 3,
                   trace = [Println ''now listening on localhost:1350'',
                            Println ''new connection: 10.0.0.1:4000'',
                            Println ''connection error: write: broken pipe''],
                   goroutines = [Acceptor, TxLoop cli1, BifrostRun 21]\<rparr>,
             mpc = MainLoop, apc = AccAccept, acc_closed = False\<rparr>
   \<and> exec env0
        [Listen None, Accept (Inr 1), AccSend,
         RxRun cli1 [[''OHAI''], [''IAMA'']] [Some ''write: broken pipe''], TxSend cli1]
        (start srv0) = None"
  by (simp add: ev_defs)

subsection \<open>C9: the root handle is shut down on every way out of \<open>Run\<close>\<close>

text \<open>
  C9. In every state the goroutines can reach from a new server, when the main goroutine
  is inside \<open>wg.Wait()\<close> or back from \<open>Run\<close>, \<open>Shutdown()\<close> has been called on the root
  handle; and when \<open>net.Listen\<close> has failed, \<open>done\<close> is never closed.
\<close>

theorem Run_shuts_controller_down:
  assumes "exec e sched (start (New h rc rb)) = Some st"
  shows "(mpc st \<in> {MainWait, MainReturned} \<longrightarrow> Shutdown rc \<in> set (trace (srv st)))
     \<and> ((\<exists>err rest. sched = Listen (Some err) # rest) \<longrightarrow> \<not> done_ch (srv st))"
proof -
  have "shutdown_inv rc (start (New h rc rb))"
    by (simp add: shutdown_inv_def start_def New_def)
  then have 1: "shutdown_inv rc st"
    using assms by (rule exec_shutdown_inv)
  have 2: "\<not> done_ch (srv st)" if s: "sched = Listen (Some err) # rest" for err rest
  proof -
    let ?st1 = "(start (New h rc rb))\<lparr>srv := listenFailed err (srv (start (New h rc rb))),
                  mpc := MainShutdown\<rparr>"
    have "exec e rest ?st1 = Some st"
      using assms s by (simp add: start_def)
    moreover have "bind_failed_inv ?st1"
      by (simp add: bind_failed_inv_def start_def New_def)
    ultimately have "bind_failed_inv st" by (rule exec_bind_failed_inv [rotated])
    then show ?thesis by (simp add: bind_failed_inv_def)
  qed
  from 1 2 show ?thesis by (auto simp: shutdown_inv_def)
qed

theorem Run_shuts_controller_down_witness:
  "exec env0 [Listen (Some ''listen tcp: address already in use''), Main, Main]
     (start (New ''localhost:1350'' 0 0)) =
     Some \<lparr>srv = \<lparr>host = ''localhost:1350'', rootClient = 0, rootBifrost = 0, clients = [],
                 done_ch = False, wg = 0,
                 trace = [Println ''couldn't open server: listen tcp: address already in use'',
                          Println ''shutting down'', Shutdown 0, WgWait],
                 goroutines = []\<rparr>,
           mpc = MainReturned, apc = AccNone, acc_closed = False\<rparr>
   \<and> Shutdown 0 \<in> set [Println ''couldn't open server: listen tcp: address already in use'',
                          Println ''shutting down'', Shutdown 0, WgWait]
   \<and> exec env0
        [Listen None, RootDoneRecv, Main, Main, Main, Main,
         Accept (Inl ''use of closed network connection''), AccDone, Main]
        (start (New ''localhost:1350'' 0 0)) =
     Some \<lparr>srv = \<lparr>host = ''localhost:1350'', rootClient = 0, rootBifrost = 0, clients = [],
                 done_ch = True, wg = 0,
                 trace = [Println ''now listening on localhost:1350'',
                          Println ''received controller shutdown'', CloseDone, LnClose,
                          Println ''closed listener'', Println ''shutting down'', Shutdown 0,
                          WgWait],
                 goroutines = []\<rparr>,
           mpc = MainReturned, apc = AccReturned, acc_closed = True\<rparr>
   \<and> Shutdown 0 \<in> set [Println ''now listening on localhost:1350'',
                          Println ''received controller shutdown'', CloseDone, LnClose,
                          Println ''closed listener'', Println ''shutting down'', Shutdown 0,
                          WgWait]"
proof -
  have r1: "exec env0 [Listen (Some ''listen tcp: address already in use''), Main, Main]
     (start (New ''localhost:1350'' 0 0)) =
     Some \<lparr>srv = \<lparr>host = ''localhost:1350'', rootClient = 0, rootBifrost = 0, clients = [],
                 done_ch = False, wg = 0,
                 trace = [Println ''couldn't open server: listen tcp: address already in use'',
                          Println ''shutting down'', Shutdown 0, WgWait],
                 goroutines = []\<rparr>,
           mpc = MainReturned, apc = AccNone, acc_closed = False\<rparr>"
    by (simp add: ev_defs)
  have r2: "exec env0
        [Listen None, RootDoneRecv, Main, Main, Main, Main,
         Accept (Inl ''use of closed network connection''), AccDone, Main]
        (start (New ''localhost:1350'' 0 0)) =
     Some \<lparr>srv = \<lparr>host = ''localhost:1350'', rootClient = 0, rootBifrost = 0, clients = [],
                 done_ch = True, wg = 0,
                 trace = [Println ''now listening on localhost:1350'',
                          Println ''received controller shutdown'', CloseDone, LnClose,
                          Println ''closed listener'', Println ''shutting down'', Shutdown 0,
                          WgWait],
                 goroutines = []\<rparr>,
           mpc = MainReturned, apc = AccReturned, acc_closed = True\<rparr>"
    by (simp add: ev_defs)
  have m1: "Shutdown 0 \<in> set [Println ''couldn't open server: listen tcp: address already in use'',
                          Println ''shutting down'', Shutdown 0, WgWait]"
    using Run_shuts_controller_down [OF r1] by simp
  have m2: "Shutdown 0 \<in> set [Println ''now listening on localhost:1350'',
                          Println ''received controller shutdown'', CloseDone, LnClose,
                          Println ''closed listener'', Println ''shutting down'', Shutdown 0,
                          WgWait]"
    using Run_shuts_controller_down [OF r2] by simp
  from r1 r2 m1 m2 show ?thesis by blast
qed

subsection \<open>C10: Responses on the root handle\<close>

text \<open>
  C10. The case \<open><-s.rootClient.Rx\<close> of the main loop changes nothing and does not
  return: the server is the same after it, with its live set, its trace of log lines,
  socket writes and closes, its counter and its goroutines; any number of such Responses
  is drained the same way; and the main goroutine stays in its \<open>select\<close>.
\<close>

theorem rootRx_drained:
  "mainLoop_case e (RootRx r) s = (s, False)
   \<and> mainLoop e (map RootRx rs @ evs) s = mainLoop e evs s
   \<and> (mpc st = MainLoop \<longrightarrow> step e (RootRxRecv r) st = Some st)"
proof -
  have "mainLoop e (map RootRx rs @ evs) s = mainLoop e evs s"
    by (induction rs) (simp_all add: mainLoop_case.simps)
  then show ?thesis by (simp add: recv_def mainLoop_case.simps)
qed

theorem rootRx_drained_witness:
  "mpc st_serving = MainLoop
   \<and> step env0 (RootRxRecv ''OHAI'') st_serving = Some st_serving
   \<and> mainLoop env0 [RootRx ''OHAI'', RootRx ''IAMA'', RootDone] (srv st_serving) =
       mainLoop env0 [RootDone] (srv st_serving)"
proof -
  have h: "mpc st_serving = MainLoop"
    by (simp add: st_serving_def)
  show ?thesis
    using h rootRx_drained [of env0 "''OHAI''" "srv st_serving" "[''OHAI'', ''IAMA'']"
        "[RootDone]" st_serving]
    by (simp del: step.simps mainLoop.simps)
qed

end
